theory Spec2Isabelle
  imports Complex_Main "HOL-Library.Word" "HOL-Library.List_Lexorder"
begin

section \<open>Text: Python strings as sequences of code points\<close>

text \<open>
  A Python \<^verbatim>\<open>str\<close> is a sequence of Unicode code points, and \<^verbatim>\<open>len\<close> counts code
  points. A text is therefore a list of natural numbers; \<open>py_str\<close> reads an ASCII literal.
\<close>

type_synonym str = "nat list"

definition py_str :: "string \<Rightarrow> str" where
  "py_str s = map of_char s"

text \<open>
  \<^verbatim>\<open>str.isspace\<close>, \<^verbatim>\<open>str.strip()\<close>, \<^verbatim>\<open>str.split()\<close> and the class \<^verbatim>\<open>\s\<close> of a \<^verbatim>\<open>str\<close>
  pattern all use the same whitespace test: TAB..CR, FS..US, space, NEL, NBSP, U+1680,
  U+2000..U+200A, U+2028, U+2029, U+202F, U+205F and U+3000.
\<close>

definition is_space :: "nat \<Rightarrow> bool" where
  "is_space c \<longleftrightarrow>
     (9 \<le> c \<and> c \<le> 13) \<or> (28 \<le> c \<and> c \<le> 32) \<or> c = 0x85 \<or> c = 0xA0 \<or> c = 0x1680 \<or>
     (0x2000 \<le> c \<and> c \<le> 0x200A) \<or> c = 0x2028 \<or> c = 0x2029 \<or> c = 0x202F \<or>
     c = 0x205F \<or> c = 0x3000"

text \<open>The classes \<^verbatim>\<open>[a-zA-Z]\<close> and \<^verbatim>\<open>[0-9]\<close>.\<close>

definition is_ascii_letter :: "nat \<Rightarrow> bool" where
  "is_ascii_letter c \<longleftrightarrow> (65 \<le> c \<and> c \<le> 90) \<or> (97 \<le> c \<and> c \<le> 122)"

definition is_ascii_digit :: "nat \<Rightarrow> bool" where
  "is_ascii_digit c \<longleftrightarrow> 48 \<le> c \<and> c \<le> 57"

text \<open>
  \<^verbatim>\<open>str.lower()\<close>. The ASCII capitals go to their small letters. Two characters outside
  ASCII have an ASCII letter in their lower case: the Kelvin sign U+212A (\<^verbatim>\<open>k\<close>) and the
  dotted capital I U+0130 (\<^verbatim>\<open>i\<close> followed by the combining dot U+0307). The lower case of
  every other character is a nonempty sequence of characters that are neither ASCII
  letters nor whitespace; \<open>lower_char\<close> leaves such a character as it is, which is all
  that \<open>clean_text\<close> below can see of it, since its next step overwrites every one of
  them with a space and then merges adjacent spaces.
\<close>

definition lower_char :: "nat \<Rightarrow> str" where
  "lower_char c =
     (if 65 \<le> c \<and> c \<le> 90 then [c + 32]
      else if c = 0x212A then [0x6B]
      else if c = 0x130 then [0x69, 0x307]
      else [c])"

definition lower :: "str \<Rightarrow> str" where
  "lower s = concat (map lower_char s)"

text \<open>\<^verbatim>\<open>re.sub(r'[^a-zA-Z\s]', ' ', text)\<close>: one space for each character outside the class.\<close>

definition sub_non_letters :: "str \<Rightarrow> str" where
  "sub_non_letters s = map (\<lambda>c. if is_ascii_letter c \<or> is_space c then c else 32) s"

text \<open>\<^verbatim>\<open>re.sub(r'\s+', ' ', text)\<close>: one space for each maximal run of whitespace.\<close>

function sub_spaces :: "str \<Rightarrow> str" where
  "sub_spaces [] = []"
| "sub_spaces (c # cs) =
     (if is_space c then 32 # sub_spaces (dropWhile is_space cs) else c # sub_spaces cs)"
  by pat_completeness auto
termination
  by (relation "measure length") (auto simp: length_dropWhile_le less_Suc_eq_le)

text \<open>\<^verbatim>\<open>str.strip()\<close>: whitespace removed at both ends.\<close>

definition strip :: "str \<Rightarrow> str" where
  "strip s = rev (dropWhile is_space (rev (dropWhile is_space s)))"

text \<open>\<^verbatim>\<open>str.split()\<close> without a separator: the maximal runs of non-whitespace.\<close>

function split_whitespace :: "str \<Rightarrow> str list" where
  "split_whitespace [] = []"
| "split_whitespace (c # cs) =
     (if is_space c then split_whitespace cs
      else (c # takeWhile (\<lambda>x. \<not> is_space x) cs)
             # split_whitespace (dropWhile (\<lambda>x. \<not> is_space x) cs))"
  by pat_completeness auto
termination
  by (relation "measure length") (auto simp: length_dropWhile_le less_Suc_eq_le)

text \<open>
  \<^verbatim>\<open>re.split(r'[.!?]+', text)\<close>: the pieces between maximal runs of sentence terminators,
  the empty pieces at either end included. The first argument is the piece read so far.
\<close>

definition is_terminator :: "nat \<Rightarrow> bool" where
  "is_terminator c \<longleftrightarrow> c = 46 \<or> c = 33 \<or> c = 63"

function split_sentences :: "str \<Rightarrow> str \<Rightarrow> str list" where
  "split_sentences cur [] = [cur]"
| "split_sentences cur (c # cs) =
     (if is_terminator c then cur # split_sentences [] (dropWhile is_terminator cs)
      else split_sentences (cur @ [c]) cs)"
  by pat_completeness auto
termination
  by (relation "measure (\<lambda>(cur, s). length s)") (auto simp: length_dropWhile_le less_Suc_eq_le)

text \<open>\<^verbatim>\<open>text.split('\n\n')\<close>: the pieces between non-overlapping pairs of line feeds.\<close>

fun split_paragraphs :: "str \<Rightarrow> str \<Rightarrow> str list" where
  "split_paragraphs cur [] = [cur]"
| "split_paragraphs cur [c] = [cur @ [c]]"
| "split_paragraphs cur (c # d # cs) =
     (if c = 10 \<and> d = 10 then cur # split_paragraphs [] cs
      else split_paragraphs (cur @ [c]) (d # cs))"

section \<open>The word counter\<close>

subsection \<open>Stop words, cleaning and word extraction\<close>

definition stop_words :: "str set" where
  "stop_words = set (map py_str
     [''the'', ''a'', ''an'', ''and'', ''or'', ''but'', ''in'', ''on'', ''at'', ''to'', ''for'',
      ''of'', ''with'', ''by'', ''is'', ''are'', ''was'', ''were'', ''be'', ''been'', ''being'',
      ''have'', ''has'', ''had'', ''do'', ''does'', ''did'', ''will'', ''would'', ''could'',
      ''should'', ''may'', ''might'', ''must'', ''can'', ''this'', ''that'', ''these'',
      ''those'', ''i'', ''you'', ''he'', ''she'', ''it'', ''we'', ''they'', ''me'', ''him'',
      ''her'', ''us'', ''them'', ''my'', ''your'', ''his'', ''its'', ''our'', ''their''])"

definition clean_text :: "str \<Rightarrow> str" where
  "clean_text text = strip (sub_spaces (sub_non_letters (lower text)))"

definition extract_words :: "str \<Rightarrow> bool \<Rightarrow> str list" where
  "extract_words text include_stop_words =
     (let cleaned_text = clean_text text;
          words = split_whitespace cleaned_text;
          words = (if \<not> include_stop_words then filter (\<lambda>word. word \<notin> stop_words) words
                   else words)
      in filter (\<lambda>word. word \<noteq> []) words)"

subsection \<open>Character statistics\<close>

record character_stats =
  total_chars :: nat
  chars_no_spaces :: nat
  alphabetic_chars :: nat
  numeric_chars :: nat
  spaces :: nat
  punctuation :: nat

definition count_characters :: "str \<Rightarrow> character_stats" where
  "count_characters text =
     \<lparr> total_chars = length text,
       chars_no_spaces = length (filter (\<lambda>c. c \<noteq> 32) text),
       alphabetic_chars = length (filter is_ascii_letter text),
       numeric_chars = length (filter is_ascii_digit text),
       spaces = count_list text 32,
       punctuation =
         length (filter (\<lambda>c. \<not> (is_ascii_letter c \<or> is_ascii_digit c \<or> is_space c)) text) \<rparr>"

subsection \<open>The frequency table\<close>

text \<open>
  \<^verbatim>\<open>Counter(words)\<close> is a dictionary that keeps its keys in the order of their first
  insertion: an association list. Each word of the sequence bumps its own entry or is
  appended with the count 1.
\<close>

fun count_element :: "(str \<times> nat) list \<Rightarrow> str \<Rightarrow> (str \<times> nat) list" where
  "count_element [] w = [(w, 1)]"
| "count_element ((k, c) # kvs) w =
     (if k = w then (k, c + 1) # kvs else (k, c) # count_element kvs w)"

definition Counter :: "str list \<Rightarrow> (str \<times> nat) list" where
  "Counter ws = foldl count_element [] ws"

text \<open>
  \<^verbatim>\<open>most_common(n)\<close> is \<^verbatim>\<open>heapq.nlargest(n, items, key=itemgetter(1))\<close>, which the library
  defines as \<^verbatim>\<open>sorted(items, key=itemgetter(1), reverse=True)[:n]\<close>: a stable sort by
  falling count, cut after \<open>n\<close> entries.
\<close>

definition most_common :: "nat \<Rightarrow> (str \<times> nat) list \<Rightarrow> (str \<times> nat) list" where
  "most_common n kvs = take n (sort_key (\<lambda>kv. - int (snd kv)) kvs)"

text \<open>
  The value stored under \<^verbatim>\<open>'word_frequency'\<close> is a \<^verbatim>\<open>Counter\<close> when the analysis is made
  and a plain \<^verbatim>\<open>dict\<close> once \<open>save_analysis\<close> has run. Both hold the same kind of items;
  they differ in what a lookup of an absent word does.
\<close>

datatype word_table = CounterObj "(str \<times> nat) list" | DictObj "(str \<times> nat) list"

datatype error = FileNotFoundError str | UnicodeDecodeError | TypeError | KeyError str

fun items :: "word_table \<Rightarrow> (str \<times> nat) list" where
  "items (CounterObj kvs) = kvs"
| "items (DictObj kvs) = kvs"

definition keys :: "word_table \<Rightarrow> str list" where
  "keys t = map fst (items t)"

fun getitem :: "word_table \<Rightarrow> str \<Rightarrow> error + nat" where
  "getitem (CounterObj kvs) w = (case map_of kvs w of Some c \<Rightarrow> Inr c | None \<Rightarrow> Inr 0)"
| "getitem (DictObj kvs) w = (case map_of kvs w of Some c \<Rightarrow> Inr c | None \<Rightarrow> Inl (KeyError w))"

fun dict :: "word_table \<Rightarrow> word_table" where
  "dict t = DictObj (items t)"

subsection \<open>Analysis of a text\<close>

text \<open>
  The result dictionary of \<open>analyze_text\<close>. Its three floating-point entries
  (\<^verbatim>\<open>avg_word_length\<close>, \<^verbatim>\<open>avg_sentence_length\<close> and \<^verbatim>\<open>reading_time_minutes\<close>, each a
  quotient rounded by \<^verbatim>\<open>round(_, 2)\<close>) are not part of the record. The two entries that
  only \<open>analyze_file\<close> adds are optional.
\<close>

record analysis =
  word_count :: nat
  unique_words :: nat
  sentence_count :: nat
  paragraph_count :: nat
  char_stats :: character_stats
  word_frequency :: word_table
  most_common_words :: "(str \<times> nat) list"
  file_path :: "str option"
  file_size_bytes :: "nat option"

definition analyze_text :: "str \<Rightarrow> bool \<Rightarrow> analysis" where
  "analyze_text text include_stop_words =
     (let words = extract_words text include_stop_words;
          sentences = split_sentences [] text;
          sentences = map strip (filter (\<lambda>s. strip s \<noteq> []) sentences);
          paragraphs = split_paragraphs [] text;
          paragraphs = map strip (filter (\<lambda>p. strip p \<noteq> []) paragraphs);
          word_freq = Counter words
      in \<lparr> word_count = length words,
           unique_words = length word_freq,
           sentence_count = length sentences,
           paragraph_count = length paragraphs,
           char_stats = count_characters text,
           word_frequency = CounterObj word_freq,
           most_common_words = most_common 10 word_freq,
           file_path = None,
           file_size_bytes = None \<rparr>)"

subsection \<open>Analysis of a file\<close>

text \<open>
  The file system maps a path to the bytes of the file stored there. Opening a path that
  is not in the map raises \<^verbatim>\<open>FileNotFoundError\<close>; the other failures of \<^verbatim>\<open>open\<close>
  (a directory, a missing permission) are outside the model.
\<close>

type_synonym byte = "8 word"

type_synonym fs = "str \<rightharpoonup> byte list"

text \<open>
  The strict UTF-8 decoder of \<^verbatim>\<open>encoding='utf-8'\<close>: one to four bytes for a code point,
  no overlong form, no surrogate, nothing above U+10FFFF. \<open>None\<close> is the decoder raising
  \<^verbatim>\<open>UnicodeDecodeError\<close>.
\<close>

definition is_cont :: "byte \<Rightarrow> bool" where
  "is_cont b \<longleftrightarrow> 0x80 \<le> b \<and> b \<le> 0xBF"

definition cont_bits :: "byte \<Rightarrow> nat" where
  "cont_bits b = unat b - 0x80"

definition second_ok :: "byte \<Rightarrow> byte \<Rightarrow> bool" where
  "second_ok b b1 \<longleftrightarrow>
     (if b = 0xE0 then 0xA0 else if b = 0xF0 then 0x90 else 0x80) \<le> b1 \<and>
     b1 \<le> (if b = 0xED then 0x9F else if b = 0xF4 then 0x8F else 0xBF)"

fun utf8_decode :: "byte list \<Rightarrow> str option" where
  "utf8_decode [] = Some []"
| "utf8_decode (b # bs) =
     (if b < 0x80 then map_option (Cons (unat b)) (utf8_decode bs)
      else if 0xC2 \<le> b \<and> b \<le> 0xDF then
        (case bs of
           b1 # r \<Rightarrow>
             if is_cont b1
             then map_option (Cons ((unat b - 0xC0) * 64 + cont_bits b1)) (utf8_decode r)
             else None
         | _ \<Rightarrow> None)
      else if 0xE0 \<le> b \<and> b \<le> 0xEF then
        (case bs of
           b1 # b2 # r \<Rightarrow>
             if second_ok b b1 \<and> is_cont b2
             then map_option
                    (Cons ((unat b - 0xE0) * 4096 + cont_bits b1 * 64 + cont_bits b2))
                    (utf8_decode r)
             else None
         | _ \<Rightarrow> None)
      else if 0xF0 \<le> b \<and> b \<le> 0xF4 then
        (case bs of
           b1 # b2 # b3 # r \<Rightarrow>
             if second_ok b b1 \<and> is_cont b2 \<and> is_cont b3
             then map_option
                    (Cons ((unat b - 0xF0) * 262144 + cont_bits b1 * 4096
                           + cont_bits b2 * 64 + cont_bits b3))
                    (utf8_decode r)
             else None
         | _ \<Rightarrow> None)
      else None)"

text \<open>
  A file opened in text mode with the default \<^verbatim>\<open>newline=None\<close> is read with universal
  newlines: \<^verbatim>\<open>\r\n\<close> and a lone \<^verbatim>\<open>\r\<close> both arrive as \<^verbatim>\<open>\n\<close>.
\<close>

fun translate_newlines :: "str \<Rightarrow> str" where
  "translate_newlines [] = []"
| "translate_newlines [c] = [if c = 13 then 10 else c]"
| "translate_newlines (c # d # cs) =
     (if c = 13 \<and> d = 10 then 10 # translate_newlines cs
      else if c = 13 then 10 # translate_newlines (d # cs)
      else c # translate_newlines (d # cs))"

text \<open>
  The constructor of the built-in \<^verbatim>\<open>UnicodeDecodeError\<close> takes exactly five arguments
  (encoding, object, start, end, reason). Called with any other number it raises
  \<^verbatim>\<open>TypeError\<close>, and that is the exception the \<^verbatim>\<open>raise\<close> statement then propagates.
\<close>

definition raise_UnicodeDecodeError :: "str list \<Rightarrow> error" where
  "raise_UnicodeDecodeError args = (if length args = 5 then UnicodeDecodeError else TypeError)"

definition analyze_file :: "fs \<Rightarrow> str \<Rightarrow> bool \<Rightarrow> error + analysis" where
  "analyze_file files path include_stop_words =
     (case files path of
        None \<Rightarrow> Inl (FileNotFoundError (py_str ''File not found: '' @ path))
      | Some bytes \<Rightarrow>
          (case utf8_decode bytes of
             None \<Rightarrow>
               Inl (raise_UnicodeDecodeError
                 [py_str ''Unable to read file. Please ensure it's a text file with UTF-8 encoding.''])
           | Some decoded \<Rightarrow>
               (let content = translate_newlines decoded;
                    analysis = analyze_text content include_stop_words
                in Inr (analysis\<lparr> file_path := Some path,
                                   file_size_bytes := Some (length bytes) \<rparr>))))"

subsection \<open>Comparison of two texts\<close>

text \<open>
  \<^verbatim>\<open>set(analysis['word_frequency'].keys())\<close>, the vocabulary of an analysis.
\<close>

definition vocabulary :: "analysis \<Rightarrow> str set" where
  "vocabulary a = set (keys (word_frequency a))"

text \<open>
  \<^verbatim>\<open>similarity_ratio\<close> is the quotient of two integers, which Python rounds to the nearest
  double; the record holds the exact quotient. \<^verbatim>\<open>list(s)\<close> enumerates a set in an order
  the language does not fix: \<open>list_of\<close> stands for that enumeration.
\<close>

record comparison =
  text1_stats :: analysis
  text2_stats :: analysis
  unique_to_text1 :: "str list"
  unique_to_text2 :: "str list"
  common_words_count :: nat
  similarity_ratio :: rat

definition compare_texts :: "(str set \<Rightarrow> str list) \<Rightarrow> str \<Rightarrow> str \<Rightarrow> comparison" where
  "compare_texts list_of text1 text2 =
     (let analysis1 = analyze_text text1 False;
          analysis2 = analyze_text text2 False;
          words1 = vocabulary analysis1;
          words2 = vocabulary analysis2;
          unique1 = words1 - words2;
          unique2 = words2 - words1;
          common_words = words1 \<inter> words2
      in \<lparr> text1_stats = analysis1,
           text2_stats = analysis2,
           unique_to_text1 = take 10 (list_of unique1),
           unique_to_text2 = take 10 (list_of unique2),
           common_words_count = card common_words,
           similarity_ratio =
             (if words1 \<union> words2 \<noteq> {}
              then of_nat (card common_words) / of_nat (card (words1 \<union> words2))
              else 0) \<rparr>)"

subsection \<open>Saving an analysis\<close>

text \<open>
  \<open>save_analysis\<close> first rebinds \<^verbatim>\<open>analysis['word_frequency']\<close> in the dictionary it was
  given, then writes the file. The guard \<^verbatim>\<open>'word_frequency' in analysis\<close> holds for every
  value of the record, which always has that entry. The function returns nothing; the
  model returns the dictionary as the caller finds it afterwards, and the file system.
  \<open>json_dump\<close> stands for the text that
  \<^verbatim>\<open>json.dump(analysis, file, indent=2, ensure_ascii=False)\<close> writes; opening the output
  file for writing is taken to succeed.
\<close>

definition save_analysis ::
  "(analysis \<Rightarrow> byte list) \<Rightarrow> analysis \<Rightarrow> str \<Rightarrow> fs \<Rightarrow> analysis \<times> fs" where
  "save_analysis json_dump analysis output_file files =
     (let analysis = analysis\<lparr> word_frequency := dict (word_frequency analysis) \<rparr>
      in (analysis, files(output_file \<mapsto> json_dump analysis)))"

section \<open>Notions used to state the properties\<close>

text \<open>The position at which a word first occurs in a sequence of words.\<close>

definition first_index :: "str list \<Rightarrow> str \<Rightarrow> nat" where
  "first_index ws w = length (takeWhile (\<lambda>x. x \<noteq> w) ws)"

text \<open>
  The ranking the specification asks of \<^verbatim>\<open>most_common_words\<close>: \<open>v\<close> comes before \<open>w\<close>
  when it occurs more often, or as often and first occurs earlier.
\<close>

definition ranks_before :: "str list \<Rightarrow> str \<Rightarrow> str \<Rightarrow> bool" where
  "ranks_before ws v w \<longleftrightarrow>
     count_list ws w < count_list ws v \<or>
     (count_list ws v = count_list ws w \<and> first_index ws v < first_index ws w)"

section \<open>Evaluation of the fox scenario\<close>

lemmas text_defs = py_str_def lower_def lower_char_def sub_non_letters_def is_space_def
  is_ascii_letter_def strip_def clean_text_def is_terminator_def

lemma fox_words:
  "extract_words (py_str ''The quick brown fox. The lazy dog!'') True =
     map py_str [''the'', ''quick'', ''brown'', ''fox'', ''the'', ''lazy'', ''dog'']"
  by (simp add: extract_words_def text_defs)

lemma fox_sentences:
  "split_sentences [] (py_str ''The quick brown fox. The lazy dog!'') =
     map py_str [''The quick brown fox'', '' The lazy dog'', '''']"
  by (simp add: text_defs)

text \<open>
  C1, as stated: for the text "The quick brown fox. The lazy dog!" analysed with stop words
  included, \<open>word_count = 8\<close>, \<open>sentence_count = 2\<close> and the frequency of "the" is 2. The text
  has seven words (the, quick, brown, fox, the, lazy, dog), so the statement fails on its
  first number.
\<close>

theorem C1_fox_word_count_is_not_8:
  "\<not> (word_count (analyze_text (py_str ''The quick brown fox. The lazy dog!'') True) = 8
      \<and> sentence_count (analyze_text (py_str ''The quick brown fox. The lazy dog!'') True) = 2
      \<and> getitem (word_frequency (analyze_text (py_str ''The quick brown fox. The lazy dog!'') True))
           (py_str ''the'') = Inr 2)"
  by (simp add: analyze_text_def fox_words Let_def)

text \<open>
  C1, amended: for the text "The quick brown fox. The lazy dog!" analysed with stop words
  included, \<open>analyze_text\<close> returns \<open>word_count = 7\<close>, \<open>sentence_count = 2\<close> and the
  frequency 2 for "the".
\<close>

theorem C1_fox_scenario:
  "word_count (analyze_text (py_str ''The quick brown fox. The lazy dog!'') True) = 7
   \<and> sentence_count (analyze_text (py_str ''The quick brown fox. The lazy dog!'') True) = 2
   \<and> getitem (word_frequency (analyze_text (py_str ''The quick brown fox. The lazy dog!'') True))
        (py_str ''the'') = Inr 2"
proof (intro conjI)
  show "word_count (analyze_text (py_str ''The quick brown fox. The lazy dog!'') True) = 7"
    by (simp add: analyze_text_def fox_words Let_def)
  show "sentence_count (analyze_text (py_str ''The quick brown fox. The lazy dog!'') True) = 2"
    by (simp add: analyze_text_def fox_sentences Let_def) (simp add: text_defs)
  show "getitem (word_frequency (analyze_text (py_str ''The quick brown fox. The lazy dog!'') True))
        (py_str ''the'') = Inr 2"
    by (simp add: analyze_text_def fox_words Let_def) (simp add: Counter_def py_str_def)
qed

section \<open>The frequency table of a word sequence\<close>

lemma Counter_snoc: "Counter (ws @ [w]) = count_element (Counter ws) w"
  by (simp add: Counter_def)

lemma Counter_Nil: "Counter [] = []"
  by (simp add: Counter_def)

lemma keys_count_element:
  "map fst (count_element kvs w) =
     (if w \<in> set (map fst kvs) then map fst kvs else map fst kvs @ [w])"
  by (induction kvs) (auto simp: rev_image_eqI)

lemma sum_count_element:
  "sum_list (map snd (count_element kvs w)) = Suc (sum_list (map snd kvs))"
  by (induction kvs) auto

lemma map_of_count_element:
  "map_of (count_element kvs w) v =
     (if v = w then Some (case map_of kvs w of None \<Rightarrow> 1 | Some c \<Rightarrow> c + 1) else map_of kvs v)"
  by (induction kvs) auto

lemma keys_Counter_set: "set (map fst (Counter ws)) = set ws"
  by (induction ws rule: rev_induct) (auto simp: Counter_Nil Counter_snoc keys_count_element)

lemma keys_Counter_distinct: "distinct (map fst (Counter ws))"
  by (induction ws rule: rev_induct) (auto simp: Counter_Nil Counter_snoc keys_count_element)

lemma sum_Counter: "sum_list (map snd (Counter ws)) = length ws"
  by (induction ws rule: rev_induct) (auto simp: Counter_Nil Counter_snoc sum_count_element)

lemma length_Counter: "length (Counter ws) = card (set ws)"
proof -
  have "card (set (map fst (Counter ws))) = length (map fst (Counter ws))"
    by (rule distinct_card) (rule keys_Counter_distinct)
  then show ?thesis by (simp only: keys_Counter_set length_map)
qed

lemma map_of_Counter:
  "map_of (Counter ws) w = (if w \<in> set ws then Some (count_list ws w) else None)"
proof (induction ws rule: rev_induct)
  case Nil
  then show ?case by (simp add: Counter_Nil)
next
  case (snoc x xs)
  then show ?case
    by (auto simp: Counter_snoc map_of_count_element)
qed

text \<open>
  C7: for every text and stop-word flag, the result of \<open>analyze_text\<close> satisfies
  \<open>0 \<le> unique_words \<le> word_count\<close>.
\<close>

theorem C7_unique_words_le_word_count:
  "0 \<le> unique_words (analyze_text text include_stop_words)
   \<and> unique_words (analyze_text text include_stop_words)
       \<le> word_count (analyze_text text include_stop_words)"
  by (simp add: analyze_text_def Let_def length_Counter card_length)

text \<open>
  C9: for every text and stop-word flag, the counts of the \<open>word_frequency\<close> table that
  \<open>analyze_text\<close> returns add up to the \<open>word_count\<close> of the same result.
\<close>

theorem C9_frequency_sum_is_word_count:
  "sum_list (map snd (items (word_frequency (analyze_text text include_stop_words))))
     = word_count (analyze_text text include_stop_words)"
  by (simp add: analyze_text_def Let_def sum_Counter)

section \<open>Comparison\<close>

lemma vocabulary_analyze_text:
  "vocabulary (analyze_text text flag) = set (extract_words text flag)"
  by (simp add: vocabulary_def keys_def analyze_text_def Let_def keys_Counter_set
      del: set_map)

lemma card_Int_le_Un: "finite A \<Longrightarrow> finite B \<Longrightarrow> card (A \<inter> B) \<le> card (A \<union> B)"
  by (rule card_mono) auto

text \<open>
  C5: for every pair of texts, \<open>compare_texts\<close> returns a \<open>similarity_ratio\<close> equal to the
  number of words common to the two stop-word-free vocabularies divided by the number of
  words in their union, equal to 0 when both vocabularies are empty, and always between 0
  and 1. The vocabularies are those of the extracted words; the enumeration order
  \<open>list_of\<close> is arbitrary.
\<close>

theorem C5_similarity_is_jaccard:
  "similarity_ratio (compare_texts list_of text1 text2) =
     (if set (extract_words text1 False) \<union> set (extract_words text2 False) = {} then 0
      else of_nat (card (set (extract_words text1 False) \<inter> set (extract_words text2 False)))
           / of_nat (card (set (extract_words text1 False) \<union> set (extract_words text2 False))))
   \<and> 0 \<le> similarity_ratio (compare_texts list_of text1 text2)
   \<and> similarity_ratio (compare_texts list_of text1 text2) \<le> 1"
proof -
  let ?A = "set (extract_words text1 False)" and ?B = "set (extract_words text2 False)"
  have sr: "similarity_ratio (compare_texts list_of text1 text2) =
     (if ?A \<union> ?B = {} then 0 else of_nat (card (?A \<inter> ?B)) / of_nat (card (?A \<union> ?B)))"
    by (simp add: compare_texts_def Let_def vocabulary_analyze_text)
  have le: "card (?A \<inter> ?B) \<le> card (?A \<union> ?B)"
    by (rule card_Int_le_Un) simp_all
  have "(of_nat (card (?A \<inter> ?B)) :: rat) / of_nat (card (?A \<union> ?B)) \<le> 1"
  proof (cases "card (?A \<union> ?B) = 0")
    case True
    then show ?thesis by simp
  next
    case False
    then have "0 < card (?A \<union> ?B)" by (rule neq0_conv [THEN iffD1])
    then have "(0::rat) < of_nat (card (?A \<union> ?B))" by (simp only: of_nat_0_less_iff)
    then show ?thesis
      using le by (simp only: divide_le_eq_1_pos of_nat_le_iff)
  qed
  moreover have "0 \<le> (of_nat (card (?A \<inter> ?B)) :: rat) / of_nat (card (?A \<union> ?B))"
    by simp
  ultimately show ?thesis
    unfolding sr by simp
qed

lemma quick_fox_words:
  "extract_words (py_str ''quick fox'') False = map py_str [''quick'', ''fox'']"
  by (simp add: extract_words_def text_defs stop_words_def)

lemma quick_dog_words:
  "extract_words (py_str ''The quick dog'') False = map py_str [''quick'', ''dog'']"
  by (simp add: extract_words_def text_defs stop_words_def)

text \<open>C5 on "quick fox" and "The quick dog": one common word out of three.\<close>

theorem C5_similarity_witness:
  "similarity_ratio (compare_texts sorted_list_of_set (py_str ''quick fox'') (py_str ''The quick dog''))
     = 1 / 3"
  using C5_similarity_is_jaccard [of sorted_list_of_set "py_str ''quick fox''" "py_str ''The quick dog''"]
  by (simp add: quick_fox_words quick_dog_words) (simp add: py_str_def card_insert_if)

text \<open>
  C8: for every text whose stop-word-free vocabulary is not empty, comparing the text with
  itself gives \<open>similarity_ratio = 1\<close> and empty \<open>unique_to_text1\<close> and \<open>unique_to_text2\<close>.
  Enumerating the empty set yields the empty list.
\<close>

theorem C8_compare_with_itself:
  assumes "set (extract_words text False) \<noteq> {}" and "list_of {} = []"
  shows "similarity_ratio (compare_texts list_of text text) = 1
         \<and> unique_to_text1 (compare_texts list_of text text) = []
         \<and> unique_to_text2 (compare_texts list_of text text) = []"
  using assms by (simp add: compare_texts_def Let_def vocabulary_analyze_text)

text \<open>C8 on "quick fox", with sets enumerated in lexicographic order.\<close>

theorem C8_compare_with_itself_witness:
  "set (extract_words (py_str ''quick fox'') False) \<noteq> {}
   \<and> sorted_list_of_set {} = ([] :: str list)
   \<and> similarity_ratio (compare_texts sorted_list_of_set (py_str ''quick fox'') (py_str ''quick fox'')) = 1
   \<and> unique_to_text1 (compare_texts sorted_list_of_set (py_str ''quick fox'') (py_str ''quick fox'')) = []
   \<and> unique_to_text2 (compare_texts sorted_list_of_set (py_str ''quick fox'') (py_str ''quick fox'')) = []"
proof -
  have ne: "set (extract_words (py_str ''quick fox'') False) \<noteq> {}"
    by (simp add: quick_fox_words)
  have emp: "sorted_list_of_set {} = ([] :: str list)"
    by simp
  show ?thesis
    using C8_compare_with_itself [where list_of = sorted_list_of_set, OF ne emp] ne emp by simp
qed

text \<open>
  C10: for every pair of texts, \<open>compare_texts\<close> called on \<open>(text1, text2)\<close> and on
  \<open>(text2, text1)\<close> returns the same \<open>similarity_ratio\<close> and the same
  \<open>common_words_count\<close>, and the set that \<open>unique_to_text1\<close> of the first call is cut
  from is the set that \<open>unique_to_text2\<close> of the second call is cut from. Each call may
  enumerate sets in an order of its own.
\<close>

theorem C10_compare_symmetric:
  "similarity_ratio (compare_texts list_of text1 text2)
     = similarity_ratio (compare_texts list_of' text2 text1)
   \<and> common_words_count (compare_texts list_of text1 text2)
     = common_words_count (compare_texts list_of' text2 text1)
   \<and> unique_to_text1 (compare_texts list_of text1 text2)
     = take 10 (list_of (vocabulary (text1_stats (compare_texts list_of text1 text2))
                          - vocabulary (text2_stats (compare_texts list_of text1 text2))))
   \<and> unique_to_text2 (compare_texts list_of' text2 text1)
     = take 10 (list_of' (vocabulary (text2_stats (compare_texts list_of' text2 text1))
                          - vocabulary (text1_stats (compare_texts list_of' text2 text1))))
   \<and> vocabulary (text1_stats (compare_texts list_of text1 text2))
       - vocabulary (text2_stats (compare_texts list_of text1 text2))
     = vocabulary (text2_stats (compare_texts list_of' text2 text1))
       - vocabulary (text1_stats (compare_texts list_of' text2 text1))"
  by (simp add: compare_texts_def Let_def Int_commute Un_commute)

section \<open>Files: reading and saving\<close>

lemma analyze_file_missing:
  "files path = None \<Longrightarrow>
     analyze_file files path flag = Inl (FileNotFoundError (py_str ''File not found: '' @ path))"
  by (simp add: analyze_file_def)

lemma analyze_file_undecodable:
  "files path = Some bytes \<Longrightarrow> utf8_decode bytes = None \<Longrightarrow>
     analyze_file files path flag = Inl TypeError"
  by (simp add: analyze_file_def raise_UnicodeDecodeError_def)

text \<open>
  C2 asks that \<open>analyze_file\<close> fail with the decoding error on an existing file whose
  bytes are not valid UTF-8. On a file that holds the single byte FF the handler's
  \<^verbatim>\<open>raise UnicodeDecodeError("...")\<close> calls the constructor with one argument instead of
  five, and what reaches the caller is a \<^verbatim>\<open>TypeError\<close>.
\<close>

theorem C2_undecodable_file_raises_TypeError:
  "utf8_decode [0xFF] = None
   \<and> analyze_file [py_str ''bad.txt'' \<mapsto> [0xFF]] (py_str ''bad.txt'') True = Inl TypeError
   \<and> analyze_file [py_str ''bad.txt'' \<mapsto> [0xFF]] (py_str ''bad.txt'') True \<noteq> Inl UnicodeDecodeError"
  by (simp add: analyze_file_def raise_UnicodeDecodeError_def)

lemma utf8_decode_sample: "utf8_decode [0x61, 0xC3, 0xA9, 0xE2, 0x82, 0xAC, 0xF0, 0x9F, 0x98, 0x80] = Some [0x61, 0xE9, 0x20AC, 0x1F600]"
  by (simp add: is_cont_def second_ok_def cont_bits_def)

lemma utf8_decode_rejects: "utf8_decode [0xC0, 0x80] = None" "utf8_decode [0xED, 0xA0, 0x80] = None" "utf8_decode [0xE2, 0x82] = None"
  by (simp_all add: is_cont_def second_ok_def cont_bits_def)

lemma fox_only_words: "extract_words (py_str ''fox'') True = [py_str ''fox'']"
  by (simp add: extract_words_def text_defs)

text \<open>
  C3, as stated: \<open>save_analysis\<close> leaves the analysis it is given unchanged. For the analysis
  of "fox" it does not: the frequency table, a \<^verbatim>\<open>Counter\<close> before the call, is a plain
  \<^verbatim>\<open>dict\<close> after it, and looking up the absent word "dog" gives 0 before and raises
  \<^verbatim>\<open>KeyError\<close> after. (What the encoder writes plays no part; here it writes the keys.)
\<close>

theorem C3_save_analysis_rebinds_word_frequency:
  "fst (save_analysis (map of_nat \<circ> concat \<circ> keys \<circ> word_frequency)
          (analyze_text (py_str ''fox'') True) (py_str ''out.json'') Map.empty)
     \<noteq> analyze_text (py_str ''fox'') True
   \<and> getitem (word_frequency (analyze_text (py_str ''fox'') True)) (py_str ''dog'') = Inr 0
   \<and> getitem (word_frequency (fst (save_analysis (map of_nat \<circ> concat \<circ> keys \<circ> word_frequency)
          (analyze_text (py_str ''fox'') True) (py_str ''out.json'') Map.empty))) (py_str ''dog'')
       = Inl (KeyError (py_str ''dog''))"
proof (intro conjI)
  show "getitem (word_frequency (analyze_text (py_str ''fox'') True)) (py_str ''dog'') = Inr 0"
    by (simp add: analyze_text_def Let_def fox_only_words) (simp add: Counter_def py_str_def)
  show k: "getitem (word_frequency (fst (save_analysis (map of_nat \<circ> concat \<circ> keys \<circ> word_frequency)
          (analyze_text (py_str ''fox'') True) (py_str ''out.json'') Map.empty))) (py_str ''dog'')
       = Inl (KeyError (py_str ''dog''))"
    by (simp add: save_analysis_def analyze_text_def Let_def fox_only_words)
       (simp add: Counter_def py_str_def)
  show "fst (save_analysis (map of_nat \<circ> concat \<circ> keys \<circ> word_frequency)
          (analyze_text (py_str ''fox'') True) (py_str ''out.json'') Map.empty)
     \<noteq> analyze_text (py_str ''fox'') True"
    by (simp add: save_analysis_def analyze_text_def Let_def)
qed

text \<open>
  C3, amended: \<open>save_analysis\<close> writes the output file and changes no other file; in the
  analysis it is given it replaces the \<open>word_frequency\<close> entry by a plain dictionary with
  the same items in the same order, so that looking up a word that is not a key raises
  \<^verbatim>\<open>KeyError\<close>, and leaves every other entry as it was.
\<close>

theorem C3_save_analysis_frame:
  "(fst (save_analysis json_dump a output_file files))\<lparr> word_frequency := word_frequency a \<rparr> = a
   \<and> word_frequency (fst (save_analysis json_dump a output_file files))
       = DictObj (items (word_frequency a))
   \<and> items (word_frequency (fst (save_analysis json_dump a output_file files)))
       = items (word_frequency a)
   \<and> (\<forall>w. w \<notin> set (keys (word_frequency a)) \<longrightarrow>
          getitem (word_frequency (fst (save_analysis json_dump a output_file files))) w
            = Inl (KeyError w))
   \<and> snd (save_analysis json_dump a output_file files) output_file
       = Some (json_dump (fst (save_analysis json_dump a output_file files)))
   \<and> (\<forall>p. p \<noteq> output_file \<longrightarrow> snd (save_analysis json_dump a output_file files) p = files p)"
proof -
  let ?r = "save_analysis json_dump a output_file files"
  have tab: "word_frequency (fst ?r) = DictObj (items (word_frequency a))"
    by (simp add: save_analysis_def Let_def)
  have absent: "\<forall>w. w \<notin> set (keys (word_frequency a)) \<longrightarrow>
      getitem (word_frequency (fst ?r)) w = Inl (KeyError w)"
  proof (intro allI impI)
    fix w
    assume "w \<notin> set (keys (word_frequency a))"
    then have "map_of (items (word_frequency a)) w = None"
      by (simp add: keys_def map_of_eq_None_iff)
    then show "getitem (word_frequency (fst ?r)) w = Inl (KeyError w)"
      by (simp add: tab)
  qed
  have rest: "(fst ?r)\<lparr> word_frequency := word_frequency a \<rparr> = a
      \<and> snd ?r output_file = Some (json_dump (fst ?r))
      \<and> (\<forall>p. p \<noteq> output_file \<longrightarrow> snd ?r p = files p)"
    by (simp add: save_analysis_def Let_def)
  from tab absent rest show ?thesis
    by simp
qed

text \<open>C3, amended, on the analysis of "fox" and a file system that holds one other file.\<close>

theorem C3_save_analysis_frame_witness:
  "word_frequency (fst (save_analysis (map of_nat \<circ> concat \<circ> keys \<circ> word_frequency)
      (analyze_text (py_str ''fox'') True) (py_str ''out.json'') [py_str ''a.txt'' \<mapsto> [0x61]]))
     = DictObj [(py_str ''fox'', 1)]
   \<and> getitem (word_frequency (fst (save_analysis (map of_nat \<circ> concat \<circ> keys \<circ> word_frequency)
      (analyze_text (py_str ''fox'') True) (py_str ''out.json'') [py_str ''a.txt'' \<mapsto> [0x61]])))
       (py_str ''dog'') = Inl (KeyError (py_str ''dog''))
   \<and> items (word_frequency (fst (save_analysis (map of_nat \<circ> concat \<circ> keys \<circ> word_frequency)
      (analyze_text (py_str ''fox'') True) (py_str ''out.json'') [py_str ''a.txt'' \<mapsto> [0x61]])))
     = [(py_str ''fox'', 1)]
   \<and> snd (save_analysis (map of_nat \<circ> concat \<circ> keys \<circ> word_frequency)
      (analyze_text (py_str ''fox'') True) (py_str ''out.json'') [py_str ''a.txt'' \<mapsto> [0x61]])
       (py_str ''a.txt'') = Some [0x61]
   \<and> snd (save_analysis (map of_nat \<circ> concat \<circ> keys \<circ> word_frequency)
      (analyze_text (py_str ''fox'') True) (py_str ''out.json'') [py_str ''a.txt'' \<mapsto> [0x61]])
       (py_str ''out.json'') = Some [0x66, 0x6F, 0x78]"
proof -
  have w: "items (word_frequency (analyze_text (py_str ''fox'') True)) = [(py_str ''fox'', 1)]"
    by (simp add: analyze_text_def Let_def fox_only_words) (simp add: Counter_def)
  have ne: "py_str ''a.txt'' \<noteq> py_str ''out.json''"
    by (simp add: py_str_def)
  have dog: "py_str ''dog'' \<notin> set (keys (word_frequency (analyze_text (py_str ''fox'') True)))"
    by (simp add: keys_def w) (simp add: py_str_def)
  have j: "(map of_nat \<circ> concat \<circ> keys \<circ> word_frequency)
      (fst (save_analysis (map of_nat \<circ> concat \<circ> keys \<circ> word_frequency)
      (analyze_text (py_str ''fox'') True) (py_str ''out.json'') [py_str ''a.txt'' \<mapsto> [0x61]])) = [0x66, 0x6F, 0x78 :: byte]"
    by (simp add: save_analysis_def Let_def keys_def w) (simp add: py_str_def)
  note inst = C3_save_analysis_frame
        [where json_dump = "map of_nat \<circ> concat \<circ> keys \<circ> word_frequency"
           and a = "analyze_text (py_str ''fox'') True"
           and output_file = "py_str ''out.json''"
           and files = "[py_str ''a.txt'' \<mapsto> [0x61]]"]
  from inst have absent: "\<forall>w. w \<notin> set (keys (word_frequency (analyze_text (py_str ''fox'') True))) \<longrightarrow>
      getitem (word_frequency (fst (save_analysis (map of_nat \<circ> concat \<circ> keys \<circ> word_frequency)
        (analyze_text (py_str ''fox'') True) (py_str ''out.json'') [py_str ''a.txt'' \<mapsto> [0x61]]))) w
        = Inl (KeyError w)"
    by blast
  from absent dog have key_error:
    "getitem (word_frequency (fst (save_analysis (map of_nat \<circ> concat \<circ> keys \<circ> word_frequency)
        (analyze_text (py_str ''fox'') True) (py_str ''out.json'') [py_str ''a.txt'' \<mapsto> [0x61]])))
        (py_str ''dog'') = Inl (KeyError (py_str ''dog''))"
    by blast
  from inst have others:
    "word_frequency (fst (save_analysis (map of_nat \<circ> concat \<circ> keys \<circ> word_frequency)
        (analyze_text (py_str ''fox'') True) (py_str ''out.json'') [py_str ''a.txt'' \<mapsto> [0x61]]))
       = DictObj [(py_str ''fox'', 1)]
     \<and> items (word_frequency (fst (save_analysis (map of_nat \<circ> concat \<circ> keys \<circ> word_frequency)
        (analyze_text (py_str ''fox'') True) (py_str ''out.json'') [py_str ''a.txt'' \<mapsto> [0x61]])))
       = [(py_str ''fox'', 1)]
     \<and> snd (save_analysis (map of_nat \<circ> concat \<circ> keys \<circ> word_frequency)
        (analyze_text (py_str ''fox'') True) (py_str ''out.json'') [py_str ''a.txt'' \<mapsto> [0x61]])
         (py_str ''a.txt'') = Some [0x61]
     \<and> snd (save_analysis (map of_nat \<circ> concat \<circ> keys \<circ> word_frequency)
        (analyze_text (py_str ''fox'') True) (py_str ''out.json'') [py_str ''a.txt'' \<mapsto> [0x61]])
         (py_str ''out.json'') = Some [0x66, 0x6F, 0x78]"
    using w ne j by simp
  from key_error others show ?thesis
    by blast
qed

section \<open>Cleaning a text twice\<close>

lemma lower_no_capitals: "c \<in> set (lower t) \<Longrightarrow> \<not> (65 \<le> c \<and> c \<le> 90)"
  by (auto simp: lower_def lower_char_def split: if_splits)

lemma sub_non_letters_chars:
  assumes "c \<in> set (sub_non_letters (lower t))"
  shows "(97 \<le> c \<and> c \<le> 122) \<or> is_space c"
proof -
  from assms obtain d where d: "d \<in> set (lower t)"
    and c: "c = (if is_ascii_letter d \<or> is_space d then d else 32)"
    by (auto simp: sub_non_letters_def)
  have "is_space 32" by (simp add: is_space_def)
  with c d lower_no_capitals [OF d] show ?thesis
    by (auto simp: is_ascii_letter_def split: if_splits)
qed

lemma sub_spaces_chars:
  "(\<And>c. c \<in> set v \<Longrightarrow> (97 \<le> c \<and> c \<le> 122) \<or> is_space c) \<Longrightarrow>
   c \<in> set (sub_spaces v) \<Longrightarrow> (97 \<le> c \<and> c \<le> 122) \<or> c = 32"
proof (induction v arbitrary: c rule: sub_spaces.induct)
  case 1
  then show ?case by simp
next
  case (2 d ds)
  show ?case
  proof (cases "is_space d")
    case True
    have sub: "\<And>x. x \<in> set (dropWhile is_space ds) \<Longrightarrow> (97 \<le> x \<and> x \<le> 122) \<or> is_space x"
      using "2.prems"(1) by (auto dest: set_dropWhileD)
    from "2.prems"(2) True have "c = 32 \<or> c \<in> set (sub_spaces (dropWhile is_space ds))"
      by simp
    then show ?thesis
      using "2.IH"(1) [OF True sub] by blast
  next
    case False
    have sub: "\<And>x. x \<in> set ds \<Longrightarrow> (97 \<le> x \<and> x \<le> 122) \<or> is_space x"
      using "2.prems"(1) by simp
    from "2.prems"(2) False have "c = d \<or> c \<in> set (sub_spaces ds)"
      by simp
    moreover have "(97 \<le> d \<and> d \<le> 122) \<or> is_space d"
      using "2.prems"(1) by simp
    ultimately show ?thesis
      using "2.IH"(2) [OF False sub] False by blast
  qed
qed

lemma sub_spaces_hd:
  "v \<noteq> [] \<Longrightarrow> \<not> is_space (hd v) \<Longrightarrow> sub_spaces v \<noteq> [] \<and> hd (sub_spaces v) = hd v"
  by (cases v) simp_all

lemma sub_spaces_single:
  "successively (\<lambda>a b. \<not> (is_space a \<and> is_space b)) (sub_spaces v)"
proof (induction v rule: sub_spaces.induct)
  case 1
  then show ?case by simp
next
  case (2 d ds)
  show ?case
  proof (cases "is_space d")
    case True
    let ?w = "dropWhile is_space ds"
    have eq: "sub_spaces (d # ds) = 32 # sub_spaces ?w"
      using True by simp
    have "sub_spaces ?w = [] \<or> \<not> is_space (hd (sub_spaces ?w))"
    proof (cases "?w = []")
      case True
      then have "sub_spaces ?w = []" by (simp only: sub_spaces.simps)
      then show ?thesis by blast
    next
      case False
      then have "\<not> is_space (hd ?w)" by (rule hd_dropWhile)
      with False sub_spaces_hd [of ?w] show ?thesis by metis
    qed
    with "2.IH"(1) [OF True] show ?thesis
      unfolding eq successively_Cons by blast
  next
    case False
    with "2.IH"(2) [OF False] show ?thesis
      by (auto simp: successively_Cons)
  qed
qed

lemma successively_dropWhile:
  assumes "successively P xs"
  shows "successively P (dropWhile R xs)"
proof -
  from assms have "successively P (takeWhile R xs @ dropWhile R xs)" by simp
  then show ?thesis by (simp only: successively_append_iff)
qed

lemma strip_set: "set (strip u) \<subseteq> set u"
proof
  fix x
  assume "x \<in> set (strip u)"
  then have "x \<in> set (dropWhile is_space (rev (dropWhile is_space u)))"
    by (simp add: strip_def)
  then have "x \<in> set (rev (dropWhile is_space u))"
    by (rule set_dropWhileD)
  then have "x \<in> set (dropWhile is_space u)"
    by simp
  then show "x \<in> set u"
    by (rule set_dropWhileD)
qed

lemma strip_single:
  assumes "successively (\<lambda>a b. \<not> (is_space a \<and> is_space b)) u"
  shows "successively (\<lambda>a b. \<not> (is_space a \<and> is_space b)) (strip u)"
proof -
  let ?Q = "\<lambda>a b. \<not> (is_space a \<and> is_space b)"
  have flip: "\<And>xs. successively (\<lambda>x y. ?Q y x) xs \<longleftrightarrow> successively ?Q xs"
    by (simp add: conj_commute)
  from assms have "successively ?Q (dropWhile is_space u)"
    by (rule successively_dropWhile)
  then have "successively ?Q (rev (dropWhile is_space u))"
    by (simp only: successively_rev flip)
  then have "successively ?Q (dropWhile is_space (rev (dropWhile is_space u)))"
    by (rule successively_dropWhile)
  then show ?thesis
    by (simp only: strip_def successively_rev flip)
qed

lemma strip_ends:
  "strip u = [] \<or> (\<not> is_space (hd (strip u)) \<and> \<not> is_space (last (strip u)))"
proof (cases "strip u = []")
  case True
  then show ?thesis by simp
next
  case False
  let ?w = "dropWhile is_space u"
  let ?z = "dropWhile is_space (rev ?w)"
  from False have z: "?z \<noteq> []" by (simp add: strip_def)
  have w: "?w \<noteq> []"
  proof
    assume "?w = []"
    then have "?z = []" by (simp only: rev.simps dropWhile.simps)
    with z show False by contradiction
  qed
  have "\<not> is_space (hd ?z)" using z by (rule hd_dropWhile)
  then have l: "\<not> is_space (last (strip u))"
    using z by (simp add: strip_def last_rev)
  have "\<not> is_space (hd ?w)" using w by (rule hd_dropWhile)
  moreover have "last ?z = last (rev ?w)"
  proof -
    have "rev ?w = takeWhile is_space (rev ?w) @ ?z" by simp
    then have "last (rev ?w) = last (takeWhile is_space (rev ?w) @ ?z)" by simp
    also have "\<dots> = last ?z" using z by (simp only: last_append if_False)
    finally show ?thesis by simp
  qed
  ultimately have "\<not> is_space (hd (strip u))"
    using z w by (simp add: strip_def hd_rev last_rev)
  with l show ?thesis by simp
qed

lemma sub_spaces_fixed:
  "(\<And>c. c \<in> set s \<Longrightarrow> is_space c \<Longrightarrow> c = 32) \<Longrightarrow>
   successively (\<lambda>a b. \<not> (is_space a \<and> is_space b)) s \<Longrightarrow>
   s = [] \<or> \<not> is_space (last s) \<Longrightarrow> sub_spaces s = s"
proof (induction s)
  case Nil
  then show ?case by simp
next
  case (Cons c cs)
  have chars: "\<And>x. x \<in> set cs \<Longrightarrow> is_space x \<Longrightarrow> x = 32"
    using Cons.prems(1) by simp
  show ?case
  proof (cases "cs = []")
    case True
    with Cons.prems(3) show ?thesis by simp
  next
    case False
    from Cons.prems(2) False have q: "\<not> (is_space c \<and> is_space (hd cs))"
      and rest: "successively (\<lambda>a b. \<not> (is_space a \<and> is_space b)) cs"
      by (auto simp: successively_Cons)
    from Cons.prems(3) False have "cs = [] \<or> \<not> is_space (last cs)" by simp
    with Cons.IH [OF chars rest] have ih: "sub_spaces cs = cs" by blast
    show ?thesis
    proof (cases "is_space c")
      case True
      with q have "\<not> is_space (hd cs)" by simp
      then have "dropWhile is_space cs = cs"
        by (simp add: dropWhile_eq_self_iff)
      moreover from True Cons.prems(1) have "c = 32" by simp
      ultimately show ?thesis using True ih by simp
    next
      case False
      then show ?thesis using ih by simp
    qed
  qed
qed

lemma lower_fixed:
  "(\<And>c. c \<in> set s \<Longrightarrow> (97 \<le> c \<and> c \<le> 122) \<or> c = 32) \<Longrightarrow> lower s = s"
proof (induction s)
  case Nil
  then show ?case by (simp add: lower_def)
next
  case (Cons c cs)
  then have "lower cs = cs" by simp
  moreover have "(97 \<le> c \<and> c \<le> 122) \<or> c = 32" using Cons.prems by simp
  then have "lower_char c = [c]" by (auto simp: lower_char_def)
  ultimately show ?case by (simp add: lower_def)
qed

lemma sub_non_letters_fixed:
  "(\<And>c. c \<in> set s \<Longrightarrow> (97 \<le> c \<and> c \<le> 122) \<or> c = 32) \<Longrightarrow> sub_non_letters s = s"
  unfolding sub_non_letters_def
  by (rule map_idI) (auto simp: is_ascii_letter_def is_space_def)

lemma strip_fixed:
  assumes "s = [] \<or> (\<not> is_space (hd s) \<and> \<not> is_space (last s))"
  shows "strip s = s"
proof -
  from assms have "s = [] \<or> \<not> is_space (hd s)"
    by blast
  then have head_eq: "dropWhile is_space s = s"
    by (simp only: dropWhile_eq_self_iff)
  from assms have "rev s = [] \<or> \<not> is_space (hd (rev s))"
    by (auto simp: hd_rev)
  then have tail_eq: "dropWhile is_space (rev s) = rev s"
    by (simp only: dropWhile_eq_self_iff)
  show ?thesis
    by (simp only: strip_def head_eq tail_eq rev_rev_ident)
qed

text \<open>
  C6: the normaliser is idempotent. \<open>clean_text\<close> lowers the case, puts a space for every
  character that is neither an ASCII letter nor whitespace, puts one space for every run
  of whitespace and trims both ends; applied to its own result it changes nothing.
\<close>

theorem C6_clean_text_idempotent: "clean_text (clean_text t) = clean_text t"
proof -
  let ?u = "sub_spaces (sub_non_letters (lower t))"
  let ?s = "clean_text t"
  have s: "?s = strip ?u" by (simp add: clean_text_def)
  have u_chars: "\<And>c. c \<in> set ?u \<Longrightarrow> (97 \<le> c \<and> c \<le> 122) \<or> c = 32"
    by (rule sub_spaces_chars [of "sub_non_letters (lower t)"]) (rule sub_non_letters_chars)
  have chars: "\<And>c. c \<in> set ?s \<Longrightarrow> (97 \<le> c \<and> c \<le> 122) \<or> c = 32"
    using u_chars strip_set [of ?u] unfolding s by blast
  have single: "successively (\<lambda>a b. \<not> (is_space a \<and> is_space b)) ?s"
    unfolding s by (rule strip_single) (rule sub_spaces_single)
  have ends: "?s = [] \<or> (\<not> is_space (hd ?s) \<and> \<not> is_space (last ?s))"
    unfolding s by (rule strip_ends)
  have blank: "\<And>c. c \<in> set ?s \<Longrightarrow> is_space c \<Longrightarrow> c = 32"
  proof -
    fix c assume mem: "c \<in> set ?s" and sp: "is_space c"
    from mem have "(97 \<le> c \<and> c \<le> 122) \<or> c = 32" by (rule chars)
    with sp show "c = 32" by (auto simp: is_space_def)
  qed
  have "lower ?s = ?s" by (rule lower_fixed) (rule chars)
  moreover have "sub_non_letters ?s = ?s" by (rule sub_non_letters_fixed) (rule chars)
  moreover have "sub_spaces ?s = ?s"
    using blank single ends by (intro sub_spaces_fixed) auto
  moreover have "strip ?s = ?s" using ends by (rule strip_fixed)
  ultimately show ?thesis
    by (simp add: clean_text_def [of ?s])
qed

section \<open>The ranking of the most common words\<close>

lemma insort_key_ranked:
  fixes f :: "'a \<Rightarrow> 'k::linorder"
  assumes "sorted (map f ys)"
    and "\<And>y. y \<in> set ys \<Longrightarrow> B x y"
    and "sorted_wrt (\<lambda>a b. f a < f b \<or> (f a = f b \<and> B a b)) ys"
  shows "sorted_wrt (\<lambda>a b. f a < f b \<or> (f a = f b \<and> B a b)) (insort_key f x ys)"
  using assms
proof (induction ys)
  case Nil
  then show ?case by simp
next
  case (Cons y ys)
  show ?case
  proof (cases "f x \<le> f y")
    case True
    have "\<And>z. z \<in> set (y # ys) \<Longrightarrow> f x < f z \<or> (f x = f z \<and> B x z)"
    proof -
      fix z assume z: "z \<in> set (y # ys)"
      then have "f y \<le> f z" using Cons.prems(1) by auto
      with True have "f x \<le> f z" by simp
      moreover have "B x z" using z by (rule Cons.prems(2))
      ultimately show "f x < f z \<or> (f x = f z \<and> B x z)" by auto
    qed
    with True Cons.prems(3) show ?thesis by simp
  next
    case False
    have ih: "sorted_wrt (\<lambda>a b. f a < f b \<or> (f a = f b \<and> B a b)) (insort_key f x ys)"
      using Cons.prems by (intro Cons.IH) auto
    have "\<And>z. z \<in> set (insort_key f x ys) \<Longrightarrow> f y < f z \<or> (f y = f z \<and> B y z)"
      using False Cons.prems(3) by (auto simp: set_insort_key)
    with False ih show ?thesis by simp
  qed
qed

lemma sort_key_ranked:
  fixes f :: "'a \<Rightarrow> 'k::linorder"
  assumes "sorted_wrt B xs"
  shows "sorted_wrt (\<lambda>a b. f a < f b \<or> (f a = f b \<and> B a b)) (sort_key f xs)"
  using assms
proof (induction xs)
  case Nil
  then show ?case by simp
next
  case (Cons x xs)
  have "sorted (map f (sort_key f xs))" by (rule sorted_sort_key)
  moreover have "\<And>y. y \<in> set (sort_key f xs) \<Longrightarrow> B x y"
    using Cons.prems by simp
  moreover have "sorted_wrt (\<lambda>a b. f a < f b \<or> (f a = f b \<and> B a b)) (sort_key f xs)"
    using Cons by simp
  ultimately show ?case
    unfolding sort_key_simps by (rule insort_key_ranked)
qed

lemma first_index_snoc_old: "v \<in> set xs \<Longrightarrow> first_index (xs @ [x]) v = first_index xs v"
  by (simp add: first_index_def)

lemma first_index_snoc_new:
  assumes "x \<notin> set xs"
  shows "first_index (xs @ [x]) x = length xs"
proof -
  have "takeWhile (\<lambda>y. y \<noteq> x) (xs @ [x]) = xs @ takeWhile (\<lambda>y. y \<noteq> x) [x]"
    by (rule takeWhile_append2) (use assms in auto)
  then show ?thesis by (simp add: first_index_def)
qed

lemma first_index_less: "v \<in> set xs \<Longrightarrow> first_index xs v < length xs"
  by (induction xs) (auto simp: first_index_def)

lemma keys_Counter_image: "fst ` set (Counter ws) = set ws"
  using keys_Counter_set [of ws] by simp

lemma keys_Counter_order:
  "sorted_wrt (\<lambda>v w. first_index ws v < first_index ws w) (map fst (Counter ws))"
proof (induction ws rule: rev_induct)
  case Nil
  then show ?case by (simp add: Counter_Nil)
next
  case (snoc x xs)
  let ?ks = "map fst (Counter xs)"
  have ks: "set ?ks = set xs" by (rule keys_Counter_set)
  have old: "sorted_wrt (\<lambda>v w. first_index (xs @ [x]) v < first_index (xs @ [x]) w) ?ks"
    using snoc.IH
    by (rule sorted_wrt_mono_rel [rotated]) (simp add: keys_Counter_image first_index_snoc_old)
  show ?case
  proof (cases "x \<in> set xs")
    case True
    then have "map fst (Counter (xs @ [x])) = ?ks"
      by (simp only: Counter_snoc keys_count_element ks if_True)
    with old show ?thesis by simp
  next
    case False
    then have eq: "map fst (Counter (xs @ [x])) = ?ks @ [x]"
      by (simp only: Counter_snoc keys_count_element ks if_False)
    have "\<And>v. v \<in> set ?ks \<Longrightarrow> first_index (xs @ [x]) v < first_index (xs @ [x]) x"
      using False
      by (simp add: keys_Counter_image first_index_snoc_old first_index_snoc_new first_index_less)
    with old show ?thesis
      unfolding eq by (simp add: sorted_wrt_append)
  qed
qed

lemma Counter_counts: "(w, c) \<in> set (Counter ws) \<Longrightarrow> w \<in> set ws \<and> c = count_list ws w"
proof -
  assume mem: "(w, c) \<in> set (Counter ws)"
  then have "map_of (Counter ws) w = Some c"
    using keys_Counter_distinct [of ws] by simp
  then show ?thesis
    by (simp add: map_of_Counter split: if_splits)
qed

lemma ranking_Counter:
  "sorted_wrt (\<lambda>a b. ranks_before ws (fst a) (fst b))
     (sort_key (\<lambda>kv. - int (snd kv)) (Counter ws))"
proof -
  let ?f = "\<lambda>kv :: str \<times> nat. - int (snd kv)"
  let ?B = "\<lambda>a b :: str \<times> nat. first_index ws (fst a) < first_index ws (fst b)"
  have "sorted_wrt ?B (Counter ws)"
    using keys_Counter_order [of ws] by (simp add: sorted_wrt_map)
  then have "sorted_wrt (\<lambda>a b. ?f a < ?f b \<or> (?f a = ?f b \<and> ?B a b)) (sort_key ?f (Counter ws))"
    by (rule sort_key_ranked)
  then show ?thesis
  proof (rule sorted_wrt_mono_rel [rotated])
    fix a b :: "str \<times> nat"
    assume a: "a \<in> set (sort_key ?f (Counter ws))" and b: "b \<in> set (sort_key ?f (Counter ws))"
      and r: "?f a < ?f b \<or> (?f a = ?f b \<and> ?B a b)"
    from a have "snd a = count_list ws (fst a)"
      using Counter_counts [of "fst a" "snd a" ws] by simp
    moreover from b have "snd b = count_list ws (fst b)"
      using Counter_counts [of "fst b" "snd b" ws] by simp
    ultimately show "ranks_before ws (fst a) (fst b)"
      using r by (auto simp: ranks_before_def)
  qed
qed

text \<open>
  C4: for every text and stop-word flag, \<open>most_common_words\<close> of the result of
  \<open>analyze_text\<close> lists at most 10 words, each with the number of its occurrences among the
  extracted words, in the order of falling count, words of equal count in the order of
  their first occurrence; every extracted word that is left out ranks after every listed
  one. With fewer than ten distinct words all of them are listed.
\<close>

theorem C4_most_common_words_ranked:
  assumes "ws = extract_words text include_stop_words"
    and "mc = most_common_words (analyze_text text include_stop_words)"
  shows "length mc = min 10 (card (set ws))
         \<and> (\<forall>(w, c) \<in> set mc. w \<in> set ws \<and> c = count_list ws w)
         \<and> sorted_wrt (\<lambda>a b. snd b \<le> snd a) mc
         \<and> sorted_wrt (ranks_before ws) (map fst mc)
         \<and> (\<forall>w \<in> set ws - set (map fst mc). \<forall>v \<in> set (map fst mc). ranks_before ws v w)"
proof -
  let ?all = "sort_key (\<lambda>kv. - int (snd kv)) (Counter ws)"
  have mc: "mc = take 10 ?all"
    by (simp add: assms analyze_text_def Let_def most_common_def)
  have ranked: "sorted_wrt (\<lambda>a b. ranks_before ws (fst a) (fst b)) ?all"
    by (rule ranking_Counter)
  have sub: "set mc \<subseteq> set (Counter ws)"
    unfolding mc using set_take_subset [of 10 ?all] by simp
  have len: "length mc = min 10 (card (set ws))"
    by (simp add: mc length_Counter min.commute)
  have cnt: "\<forall>(w, c) \<in> set mc. w \<in> set ws \<and> c = count_list ws w"
    using sub Counter_counts [of _ _ ws] by blast
  have top: "sorted_wrt (\<lambda>a b. ranks_before ws (fst a) (fst b)) mc"
    unfolding mc using ranked by (rule sorted_wrt_take)
  then have names: "sorted_wrt (ranks_before ws) (map fst mc)"
    by (simp add: sorted_wrt_map)
  have desc: "sorted_wrt (\<lambda>a b. snd b \<le> snd a) mc"
    using top
  proof (rule sorted_wrt_mono_rel [rotated])
    fix a b assume "a \<in> set mc" and "b \<in> set mc"
      and r: "ranks_before ws (fst a) (fst b)"
    then have "snd a = count_list ws (fst a)" and "snd b = count_list ws (fst b)"
      using cnt by auto
    with r show "snd b \<le> snd a" by (auto simp: ranks_before_def)
  qed
  have rest: "\<forall>w \<in> set ws - set (map fst mc). \<forall>v \<in> set (map fst mc). ranks_before ws v w"
  proof (intro ballI)
    fix w v
    assume w: "w \<in> set ws - set (map fst mc)" and v: "v \<in> set (map fst mc)"
    have split: "?all = mc @ drop 10 ?all" by (simp add: mc)
    from w have "w \<in> set (map fst ?all)" by (simp add: keys_Counter_image)
    then have "w \<in> set (map fst mc) \<union> set (map fst (drop 10 ?all))"
      by (subst (asm) split) (simp only: map_append set_append)
    with w have "w \<in> set (map fst (drop 10 ?all))" by blast
    then obtain b where b: "b \<in> set (drop 10 ?all)" and wb: "w = fst b" by auto
    from v obtain a where a: "a \<in> set mc" and va: "v = fst a" by auto
    have "sorted_wrt (\<lambda>a b. ranks_before ws (fst a) (fst b)) (mc @ drop 10 ?all)"
      using ranked split by simp
    then have "ranks_before ws (fst a) (fst b)"
      using a b by (simp only: sorted_wrt_append)
    then show "ranks_before ws v w" by (simp add: va wb)
  qed
  from len cnt desc names rest show ?thesis by blast
qed


lemma letters_words:
  "extract_words (py_str ''a b c d e f g h i j k k'') True =
     map py_str [''a'', ''b'', ''c'', ''d'', ''e'', ''f'', ''g'', ''h'', ''i'', ''j'', ''k'', ''k'']"
  by (simp add: extract_words_def text_defs)

lemma letters_most_common:
  "most_common_words (analyze_text (py_str ''a b c d e f g h i j k k'') True) =
     [(py_str ''k'', 2), (py_str ''a'', 1), (py_str ''b'', 1), (py_str ''c'', 1), (py_str ''d'', 1),
      (py_str ''e'', 1), (py_str ''f'', 1), (py_str ''g'', 1), (py_str ''h'', 1), (py_str ''i'', 1)]"
  by (simp add: analyze_text_def Let_def letters_words)
     (simp add: Counter_def most_common_def py_str_def)

text \<open>
  C4 on "a b c d e f g h i j k k": eleven distinct words, of which \<open>k\<close> occurs twice and
  comes first; \<open>j\<close>, the last of the words that occur once, is the one left out.
\<close>

theorem C4_most_common_words_witness:
  "most_common_words (analyze_text (py_str ''a b c d e f g h i j k k'') True) =
     [(py_str ''k'', 2), (py_str ''a'', 1), (py_str ''b'', 1), (py_str ''c'', 1), (py_str ''d'', 1),
      (py_str ''e'', 1), (py_str ''f'', 1), (py_str ''g'', 1), (py_str ''h'', 1), (py_str ''i'', 1)]
   \<and> length (most_common_words (analyze_text (py_str ''a b c d e f g h i j k k'') True)) = 10
   \<and> ranks_before (extract_words (py_str ''a b c d e f g h i j k k'') True)
        (py_str ''k'') (py_str ''a'')
   \<and> ranks_before (extract_words (py_str ''a b c d e f g h i j k k'') True)
        (py_str ''i'') (py_str ''j'')"
proof -
  let ?ws = "extract_words (py_str ''a b c d e f g h i j k k'') True"
  let ?mc = "most_common_words (analyze_text (py_str ''a b c d e f g h i j k k'') True)"
  note inst = C4_most_common_words_ranked [OF refl refl, of "py_str ''a b c d e f g h i j k k''" True]
  from inst have len: "length ?mc = min 10 (card (set ?ws))"
    and names: "sorted_wrt (ranks_before ?ws) (map fst ?mc)"
    and rest: "\<forall>w \<in> set ?ws - set (map fst ?mc). \<forall>v \<in> set (map fst ?mc). ranks_before ?ws v w"
    by blast+
  have j: "py_str ''j'' \<in> set ?ws - set (map fst ?mc)"
    unfolding letters_words letters_most_common by (simp add: py_str_def)
  have i: "py_str ''i'' \<in> set (map fst ?mc)"
    unfolding letters_most_common by simp
  from rest j i have ij: "ranks_before ?ws (py_str ''i'') (py_str ''j'')"
    by blast
  from names have ka: "ranks_before ?ws (py_str ''k'') (py_str ''a'')"
    unfolding letters_most_common by simp
  from len have "length ?mc = 10"
    unfolding letters_words by (simp add: py_str_def card_insert_if)
  with ij ka letters_most_common show ?thesis
    by blast
qed

end
